theory Spec2Isabelle
  imports Complex_Main "HOL-Library.Sublist"
begin

section \<open>The prompt enhancer hook (app/lib/hooks/usePromptEnhancer.ts)\<close>

text \<open>
  \<open>enhancePrompt\<close> talks to three collaborators: \<open>fetch\<close>, the body reader of the
  response and the caller's \<open>setInput\<close>. The first two are inputs of the model (what the
  network did), the third is a log of the values it was called with, oldest first. A
  reader is the finite list of chunks it yields, already decoded to text, and how the
  stream ends: \<open>done\<close>, or a rejected \<open>read()\<close>.
\<close>

datatype stream_end = StreamDone | StreamError

record response =
  ok :: bool
  httpStatus :: nat
  body :: "(string list \<times> stream_end) option"

datatype fetch_outcome = FetchRejects | FetchResolves response

record enhancer =
  enhancingPrompt :: bool
  promptEnhanced :: bool
  setInputCalls :: "string list"

definition setInput :: "string \<Rightarrow> enhancer \<Rightarrow> enhancer" where
  "setInput v s = s\<lparr>setInputCalls := setInputCalls s @ [v]\<rparr>"

definition setEnhancingPrompt :: "bool \<Rightarrow> enhancer \<Rightarrow> enhancer" where
  "setEnhancingPrompt b s = s\<lparr>enhancingPrompt := b\<rparr>"

definition setPromptEnhanced :: "bool \<Rightarrow> enhancer \<Rightarrow> enhancer" where
  "setPromptEnhanced b s = s\<lparr>promptEnhanced := b\<rparr>"

text \<open>
  \<open>text.replace(/pat/g, '')\<close> for a literal pattern: every match is removed, scanning
  from the left, and the scan goes on after the match.
\<close>

function removeAll :: "string \<Rightarrow> string \<Rightarrow> string" where
  "removeAll pat [] = []"
| "removeAll pat (c # cs) =
     (if pat \<noteq> [] \<and> prefix pat (c # cs)
      then removeAll pat (drop (length pat) (c # cs))
      else c # removeAll pat cs)"
  by pat_completeness auto
termination
  by (relation "measure (\<lambda>(pat, s). length s)") auto

definition objectArtifact :: string where
  "objectArtifact = ''[object Object]''"

text \<open>
  \<open>String.prototype.trim\<close> on the characters a \<open>char\<close> can hold: tab, line feed,
  vertical tab, form feed, carriage return, space and the no-break space.
\<close>

definition isWhiteSpace :: "char \<Rightarrow> bool" where
  "isWhiteSpace c = (of_char c \<in> {9, 10, 11, 12, 13, 32, 160 :: nat})"

definition trim :: "string \<Rightarrow> string" where
  "trim s = rev (dropWhile isWhiteSpace (rev (dropWhile isWhiteSpace s)))"

text \<open>
  The \<open>while (true)\<close> loop over \<open>reader.read()\<close>. The result is the hook's state and
  \<open>Some _input\<close> when the loop left through \<open>break\<close>, \<open>None\<close> when \<open>read()\<close> threw.
\<close>

fun readLoop :: "string list \<Rightarrow> stream_end \<Rightarrow> string \<Rightarrow> enhancer \<Rightarrow> enhancer \<times> string option" where
  "readLoop [] StreamDone acc s = (s, Some acc)"
| "readLoop [] StreamError acc s = (s, None)"
| "readLoop (chunk # rest) e acc s =
     (let cleanChunk = removeAll objectArtifact chunk;
          acc' = acc @ cleanChunk
      in readLoop rest e acc' (setInput acc' s))"

text \<open>
  The body of the \<open>try\<close> block. The boolean is \<open>True\<close> when the block ran to its end
  and \<open>False\<close> when it threw; the state is the one at that moment.
\<close>

definition tryBlock :: "string \<Rightarrow> fetch_outcome \<Rightarrow> enhancer \<Rightarrow> enhancer \<times> bool" where
  "tryBlock originalInput outcome s =
     (case outcome of
        FetchRejects \<Rightarrow> (s, False)
      | FetchResolves r \<Rightarrow>
          if \<not> ok r then (s, False)
          else (case body r of
                  None \<Rightarrow> (s, False)
                | Some (chunks, e) \<Rightarrow>
                    (case readLoop chunks e [] (setInput [] s) of
                       (s', None) \<Rightarrow> (s', False)
                     | (s', Some input') \<Rightarrow>
                         let finalInput = trim (removeAll objectArtifact input');
                             s'' = (if finalInput \<noteq> [] then setInput finalInput s'
                                    else setInput originalInput s')
                         in (setPromptEnhanced True s'', True))))"

definition enhancePrompt :: "string \<Rightarrow> fetch_outcome \<Rightarrow> enhancer \<Rightarrow> enhancer" where
  "enhancePrompt input outcome s =
     (let s1 = setPromptEnhanced False (setEnhancingPrompt True s);
          originalInput = input;
          (s2, completed) = tryBlock originalInput outcome s1;
          s3 = (if completed then s2
                else setPromptEnhanced False (setInput originalInput s2))
      in setEnhancingPrompt False s3)"

definition idle :: enhancer where
  "idle = \<lparr>enhancingPrompt = False, promptEnhanced = False, setInputCalls = []\<rparr>"

section \<open>The action runner (app/lib/runtime/action-runner.ts, as FLOW_DOCUMENTATION.md quotes it)\<close>

subsection \<open>The external runtime\<close>

text \<open>
  The runner reaches the WebContainer through \<open>fs.mkdir\<close>, \<open>fs.writeFile\<close> and
  \<open>spawn\<close>. What these calls do is not the runner's business; the model takes a
  container as the answers it gives: which calls reject, and the exit code a spawned
  process resolves with (which may depend on whether the process has been killed by
  then).
\<close>

record webcontainer =
  mkdirFails :: "string \<Rightarrow> bool"
  writeFileFails :: "string \<Rightarrow> string \<Rightarrow> bool"
  spawnFails :: "string \<Rightarrow> string list \<Rightarrow> bool"
  processExit :: "string list \<Rightarrow> bool \<Rightarrow> int"

text \<open>
  A spawned process is known by a handle. The one listener the runner registers on the
  abort signal of an action is \<open>() => { process.kill(); }\<close>, for the process it has
  just spawned.
\<close>

datatype listener = KillProcess nat

datatype sink = ConsoleLog

text \<open>What the runner does to the outside, in the order it does it.\<close>

datatype effect =
    Mkdir string bool
  | WriteFile string string
  | Spawn string "string list" "(string \<times> bool) list"
  | PipeTo nat sink
  | Kill nat

fun fireAbort :: "listener \<Rightarrow> effect" where
  "fireAbort (KillProcess pid) = Kill pid"

datatype error =
    FsError string
  | SpawnError string
  | TypeError

subsection \<open>Action state\<close>

text \<open>
  \<open>abortSignal\<close> says whether the signal of the action has fired; the listeners
  registered on the signal are kept by the runner, per action.
\<close>

datatype ActionStatus = pending | running | complete | aborted | failed

record ActionState =
  status :: ActionStatus
  executed :: bool
  abortSignal :: bool
  actionType :: string
  content :: string
  filePath :: "string option"

subsection \<open>Running one action\<close>

text \<open>
  \<open>nodePath.dirname\<close> is Node's \<open>path.dirname\<close> in its POSIX flavour, a library
  function: trailing slashes are skipped, and the path is cut at the last slash that is
  left, if it is not the first character.
\<close>

fun dirnameLoop :: "string \<Rightarrow> nat \<Rightarrow> bool \<Rightarrow> nat option" where
  "dirnameLoop path 0 matchedSlash = None"
| "dirnameLoop path (Suc n) matchedSlash =
     (if path ! Suc n = CHR ''/''
      then (if \<not> matchedSlash then Some (Suc n) else dirnameLoop path n matchedSlash)
      else dirnameLoop path n False)"

definition dirname :: "string \<Rightarrow> string" where
  "dirname path =
     (if path = [] then ''.''
      else let hasRoot = (hd path = CHR ''/'')
           in case dirnameLoop path (length path - 1) True of
                None \<Rightarrow> if hasRoot then ''/'' else ''.''
              | Some e \<Rightarrow> if hasRoot \<and> e = 1 then ''//'' else take e path)"

text \<open>
  An awaited call of the runtime: the effect is made, and the call either rejects (the
  \<open>await\<close> throws) or lets the function go on.
\<close>

type_synonym run = "effect list \<times> (error + unit)"

definition await :: "effect \<Rightarrow> bool \<Rightarrow> error \<Rightarrow> run \<Rightarrow> run" where
  "await e rejects err rest =
     (if rejects then ([e], Inl err) else (e # fst rest, snd rest))"

definition runFileAction :: "webcontainer \<Rightarrow> ActionState \<Rightarrow> run" where
  "runFileAction wc action =
     (case filePath action of
        None \<Rightarrow> ([], Inl TypeError)
      | Some p \<Rightarrow>
          let folder = dirname p;
              write = await (WriteFile p (content action))
                        (writeFileFails wc p (content action)) (FsError p) ([], Inr ())
          in if folder \<noteq> ''.''
             then await (Mkdir folder True) (mkdirFails wc folder) (FsError folder) write
             else write)"

text \<open>A container in which every call succeeds and every process exits with code 0.\<close>

definition okContainer :: webcontainer where
  "okContainer =
     \<lparr>mkdirFails = (\<lambda>p. False), writeFileFails = (\<lambda>p c. False),
      spawnFails = (\<lambda>c a. False), processExit = (\<lambda>a k. 0)\<rparr>"

text \<open>Whether a trace writes a file and creates a directory later on.\<close>

fun isMkdir :: "effect \<Rightarrow> bool" where
  "isMkdir (Mkdir p r) = True"
| "isMkdir e = False"

fun writeBeforeMkdir :: "effect list \<Rightarrow> bool" where
  "writeBeforeMkdir [] = False"
| "writeBeforeMkdir (WriteFile p c # es) = (list_ex isMkdir es \<or> writeBeforeMkdir es)"
| "writeBeforeMkdir (e # es) = writeBeforeMkdir es"




text \<open>A container that cannot spawn; its file system works.\<close>

definition noSpawn :: webcontainer where
  "noSpawn =
     \<lparr>mkdirFails = (\<lambda>p. False), writeFileFails = (\<lambda>p c. False),
      spawnFails = (\<lambda>c a. True), processExit = (\<lambda>a k. 0)\<rparr>"
subsection \<open>The runner and its chain of executions\<close>

text \<open>
  What the parser's callbacks hand to the runner: the action's id and the fields of the
  action known at the time of the call.
\<close>

record ActionCallbackData =
  messageId :: string
  artifactId :: string
  actionId :: string
  cbType :: string
  cbContent :: string
  cbFilePath :: "string option"

text \<open>
  An execution in flight is suspended at an \<open>await\<close>. The model keeps what it waits
  for: the exit of the process it spawned (\<open>ProcessExit\<close>, with the handle and the
  arguments of the process), or nothing more than its turn to go on, its calls having
  been answered already (\<open>Settled\<close>, with what the run returns or throws then).
  \<open>NoAction\<close> is the execution of an id the store does not have.
\<close>

datatype awaited =
    Settled "error + unit"
  | ProcessExit nat "string list"
  | NoAction

text \<open>
  The runner holds the container, the store of its actions and the promise
  \<open>#currentExecutionPromise\<close>. Every \<open>runAction\<close> replaces the promise by
  \<open>promise.then(() => executeAction(id)).catch(log)\<close>, so the promise is a chain of
  links, one per call, and the callback of a link fires once the link before it has
  settled. The model keeps the chain as the link whose \<open>executeAction\<close> is in flight
  (\<open>executing\<close>) and the links behind it whose callback has not fired yet (\<open>waiting\<close>,
  oldest first); the promise is settled when both are empty. \<open>listeners\<close> holds the
  listeners registered on the abort signal of each action. The other fields only
  record what happened, and no code reads them: \<open>scheduled\<close> the ids \<open>runAction\<close> has
  chained, in order; \<open>effects\<close> what the runner did to the container; \<open>console\<close> what
  the \<open>catch\<close> of the chain logged; \<open>debug\<close> the exit codes \<open>logger.debug\<close> reported;
  \<open>statusLog\<close> the statuses \<open>#executeAction\<close> gave to actions.
\<close>

record ActionRunner =
  webcontainer :: webcontainer
  actions :: "string \<rightharpoonup> ActionState"
  listeners :: "string \<Rightarrow> listener list"
  executing :: "(string \<times> awaited) option"
  waiting :: "string list"
  scheduled :: "string list"
  effects :: "effect list"
  console :: "error list"
  debug :: "int list"
  statusLog :: "(string \<times> ActionStatus) list"


fun terminal :: "ActionStatus \<Rightarrow> bool" where
  "terminal complete = True"
| "terminal failed = True"
| "terminal aborted = True"
| "terminal pending = False"
| "terminal running = False"

text \<open>
  Modelled from the spec: \<open>addAction\<close>, whose body the sources do not show. The action
  enters the store as \<open>pending\<close>, not executed, its token not fired, with the fields
  the callback has for it; an action the store already has is left as it is (the state
  machine of the spec has no edge back to \<open>pending\<close>).
\<close>

definition addAction :: "ActionCallbackData \<Rightarrow> ActionRunner \<Rightarrow> ActionRunner" where
  "addAction d r =
     (case actions r (actionId d) of
        Some a \<Rightarrow> r
      | None \<Rightarrow>
          r\<lparr>actions := (actions r)(actionId d \<mapsto>
               \<lparr>status = pending, executed = False, abortSignal = False,
                actionType = cbType d, content = cbContent d, filePath = cbFilePath d\<rparr>)\<rparr>)"

text \<open>
  \<open>#runShellAction\<close>, from the sources, in its two parts. The first runs from the call
  to \<open>await process.exit\<close>: the process is spawned (a spawn that rejects throws out of
  the function), the listener that kills it is registered on the abort signal of the
  action, and its output is piped to the console. The handle of a process is the
  position of its spawn among the effects. The second part runs when the process
  exits: the exit code is logged, and the function returns.
\<close>

definition runShellAction :: "string \<Rightarrow> ActionState \<Rightarrow> ActionRunner \<Rightarrow> ActionRunner \<times> awaited" where
  "runShellAction aid action r =
     (let argv = [''-c'', content action];
          pid = length (effects r);
          spawned = r\<lparr>effects := effects r @ [Spawn ''jsh'' argv [(''npm_config_yes'', True)]]\<rparr>
      in if spawnFails (webcontainer r) ''jsh'' argv
         then (spawned, Settled (Inl (SpawnError ''jsh'')))
         else (spawned\<lparr>listeners := (listeners r)(aid := listeners r aid @ [KillProcess pid]),
                       effects := effects spawned @ [PipeTo pid ConsoleLog]\<rparr>,
               ProcessExit pid argv))"

definition runShellAction_exit ::
    "nat \<Rightarrow> string list \<Rightarrow> ActionRunner \<Rightarrow> ActionRunner \<times> (error + unit)" where
  "runShellAction_exit pid argv r =
     (let exitCode = processExit (webcontainer r) argv (Kill pid \<in> set (effects r))
      in (r\<lparr>debug := debug r @ [exitCode]\<rparr>, Inr ()))"

text \<open>
  Modelled from the spec: \<open>#executeAction\<close>, of which the sources show the name and the
  two functions it dispatches to. It has two halves, with the awaited work between them.
  The first marks the action \<open>running\<close> and starts its run: that of a shell action up to
  the wait for the exit of the process, that of a file action with all its calls. The
  second takes the outcome of the run: a run that threw marks the action \<open>failed\<close> and
  throws on, into the \<open>catch\<close> of the chain; a run that returned marks it \<open>aborted\<close>
  when its token has fired and \<open>complete\<close> otherwise. An action of a type other than
  \<open>shell\<close> and \<open>file\<close> runs nothing, and for an id the store does not have nothing
  happens at all.
\<close>

definition setStatus :: "string \<Rightarrow> ActionStatus \<Rightarrow> ActionRunner \<Rightarrow> ActionRunner" where
  "setStatus aid s r =
     (case actions r aid of
        None \<Rightarrow> r
      | Some a \<Rightarrow> r\<lparr>actions := (actions r)(aid \<mapsto> a\<lparr>status := s\<rparr>),
                    statusLog := statusLog r @ [(aid, s)]\<rparr>)"

definition executeAction_begin :: "string \<Rightarrow> ActionRunner \<Rightarrow> ActionRunner \<times> awaited" where
  "executeAction_begin aid r =
     (case actions r aid of
        None \<Rightarrow> (r, NoAction)
      | Some a \<Rightarrow>
          let r' = setStatus aid running r
          in if actionType a = ''shell'' then runShellAction aid a r'
             else if actionType a = ''file''
             then (case runFileAction (webcontainer r') a of
                     (effs, outcome) \<Rightarrow> (r'\<lparr>effects := effects r' @ effs\<rparr>, Settled outcome))
             else (r', Settled (Inr ())))"

definition settledStatus :: "ActionState \<Rightarrow> error + unit \<Rightarrow> ActionStatus" where
  "settledStatus a outcome =
     (case outcome of
        Inl e \<Rightarrow> failed
      | Inr u \<Rightarrow> if abortSignal a then aborted else complete)"

definition finish :: "string \<Rightarrow> error + unit \<Rightarrow> ActionRunner \<Rightarrow> ActionRunner" where
  "finish aid outcome r =
     (case actions r aid of
        None \<Rightarrow> r
      | Some a \<Rightarrow> setStatus aid (settledStatus a outcome) r)"

definition executeAction_settle ::
    "string \<Rightarrow> awaited \<Rightarrow> ActionRunner \<Rightarrow> ActionRunner \<times> (error + unit)" where
  "executeAction_settle aid w r =
     (case w of
        NoAction \<Rightarrow> (r, Inr ())
      | Settled outcome \<Rightarrow> (finish aid outcome r, outcome)
      | ProcessExit pid argv \<Rightarrow>
          (case runShellAction_exit pid argv r of
             (r', outcome) \<Rightarrow> (finish aid outcome r', outcome)))"

text \<open>
  The chain, from the sources. \<open>pump\<close> fires the callback of the oldest waiting link
  when no execution is in flight: \<open>.then(() => this.#executeAction(actionId))\<close>.
  \<open>settle\<close> is the moment the execution in flight returns or throws: the
  \<open>.catch\<close> of its link logs what it threw, the link is settled either way, and the
  next callback fires.
\<close>

definition pump :: "ActionRunner \<Rightarrow> ActionRunner" where
  "pump r =
     (case executing r of
        Some e \<Rightarrow> r
      | None \<Rightarrow>
          (case waiting r of
             [] \<Rightarrow> r
           | aid # rest \<Rightarrow>
               (case executeAction_begin aid (r\<lparr>waiting := rest\<rparr>) of
                  (r', w) \<Rightarrow> r'\<lparr>executing := Some (aid, w)\<rparr>)))"

definition settle :: "ActionRunner \<Rightarrow> ActionRunner" where
  "settle r =
     (case executing r of
        None \<Rightarrow> r
      | Some (aid, w) \<Rightarrow>
          (case executeAction_settle aid w r of
             (r', outcome) \<Rightarrow>
               let caught = (case outcome of
                               Inl e \<Rightarrow> r'\<lparr>console := console r' @ [e]\<rparr>
                             | Inr u \<Rightarrow> r')
               in pump (caught\<lparr>executing := None\<rparr>)))"

text \<open>
  \<open>runAction\<close>, from the sources: one more link on the chain, for the id of the
  callback's action. Nothing else is done: the call does not look at the store, so it
  chains an id as often as it is called with it, and the fields of its argument other
  than the id are not used.
\<close>

definition runAction :: "ActionCallbackData \<Rightarrow> ActionRunner \<Rightarrow> ActionRunner" where
  "runAction d r =
     pump (r\<lparr>waiting := waiting r @ [actionId d], scheduled := scheduled r @ [actionId d]\<rparr>)"

text \<open>
  Modelled from the spec: the \<open>abort\<close> callback of an action state (the spec's
  \<open>cancel(actionId)\<close>). It fires the signal of the action, once: the listeners
  registered on it run. It does nothing for an action that has reached a terminal
  status.
\<close>

definition abort :: "string \<Rightarrow> ActionRunner \<Rightarrow> ActionRunner" where
  "abort aid r =
     (case actions r aid of
        None \<Rightarrow> r
      | Some a \<Rightarrow>
          if terminal (status a) \<or> abortSignal a then r
          else r\<lparr>actions := (actions r)(aid \<mapsto> a\<lparr>abortSignal := True\<rparr>),
                 effects := effects r @ map fireAbort (listeners r aid)\<rparr>)"

text \<open>What can happen to a runner, and a run of such events from a new runner.\<close>

datatype event =
    AddAction ActionCallbackData
  | RunAction ActionCallbackData
  | Abort string
  | Settle

fun step :: "ActionRunner \<Rightarrow> event \<Rightarrow> ActionRunner" where
  "step r (AddAction d) = addAction d r"
| "step r (RunAction d) = runAction d r"
| "step r (Abort aid) = abort aid r"
| "step r Settle = settle r"







subsection \<open>The shape of a reachable runner\<close>

text \<open>
  The id in flight, if any; the number of chained executions that have settled; and
  the two entries each settled execution makes in the status log.
\<close>

definition inflight :: "ActionRunner \<Rightarrow> string list" where
  "inflight r = (case executing r of None \<Rightarrow> [] | Some (aid, w) \<Rightarrow> [aid])"







definition caught :: "error + unit \<Rightarrow> error list" where
  "caught outcome = (case outcome of Inl e \<Rightarrow> [e] | Inr u \<Rightarrow> [])"



section \<open>formatFileSize (app/components/chat/AttachmentDropdown.tsx)\<close>




section \<open>The directive parser\<close>

text \<open>
  Modelled from the spec: the directive parser (app/lib/runtime/message-parser.ts), of
  which the sources show the signature of \<open>parse\<close> and the fields of the message
  state, not the body. The model follows sections 3 and 4.1 of the spec: the tag
  families \<open><artifact ...> ... </artifact>\<close> and \<open><action ...> ... </action>\<close>, the
  four events with the fields the spec lists (the closing event of an action carries
  its type and path beside the final content, since the callback that receives it reads
  the type), a state per stream, and the deferral of text that cannot be classified yet.
\<close>

subsection \<open>Tags and attributes\<close>

definition artifactOpen :: string where "artifactOpen = ''<artifact''"
definition artifactClose :: string where "artifactClose = ''</artifact>''"
definition actionOpen :: string where "actionOpen = ''<action''"
definition actionClose :: string where "actionClose = ''</action>''"

text \<open>
  Modelled from the spec: the recognition of a tag at a chunk boundary (the parser's
  body is not in the sources). How the text at the cursor stands to a tag: it is not
  the tag, it may still become the tag with more text, or it is the tag. An opening name must be followed by a space
  or by \<open>>\<close>; a closing tag is matched as a whole.
\<close>

datatype tag_match = NoMatch | Partial | Match

definition matchOpen :: "string \<Rightarrow> string \<Rightarrow> tag_match" where
  "matchOpen name rest =
     (if length rest \<le> length name
      then (if prefix rest name then Partial else NoMatch)
      else if prefix name rest
              \<and> (rest ! length name = CHR '' '' \<or> rest ! length name = CHR ''>'')
           then Match else NoMatch)"

definition matchClose :: "string \<Rightarrow> string \<Rightarrow> tag_match" where
  "matchClose tag rest =
     (if prefix tag rest then Match
      else if prefix rest tag then Partial
      else NoMatch)"

text \<open>
  Modelled from the spec: the end of an opening tag, at the index of the first
  \<open>>\<close> (the parser's body is not in the sources).
\<close>

definition tagEnd :: "string \<Rightarrow> nat option" where
  "tagEnd rest =
     (if CHR ''>'' \<in> set rest
      then Some (length (takeWhile (\<lambda>c. c \<noteq> CHR ''>'') rest))
      else None)"

text \<open>
  Modelled from the spec: the extraction of attributes (\<open>#extractAttribute\<close> is not
  in the sources). The value of an attribute: after a space, the name, \<open>=\<close>, and the value between
  two double or two single quotes. Attributes may come in any order; a value that
  holds its own quote character is cut there.
\<close>

definition attributeAt :: "string \<Rightarrow> string \<Rightarrow> string option" where
  "attributeAt name s =
     (if prefix (name @ ''='') s
      then (case drop (Suc (length name)) s of
              [] \<Rightarrow> None
            | q # v \<Rightarrow>
                if (q = CHR 0x22 \<or> q = CHR 0x27) \<and> q \<in> set v
                then Some (takeWhile (\<lambda>c. c \<noteq> q) v)
                else None)
      else None)"

fun extractAttribute :: "string \<Rightarrow> string \<Rightarrow> string option" where
  "extractAttribute name [] = None"
| "extractAttribute name (c # cs) =
     (if c = CHR '' '' \<and> attributeAt name cs \<noteq> None
      then attributeAt name cs
      else extractAttribute name cs)"

definition attributeOr :: "string \<Rightarrow> string \<Rightarrow> string" where
  "attributeOr name tag = (case extractAttribute name tag of None \<Rightarrow> [] | Some v \<Rightarrow> v)"

subsection \<open>Events and state\<close>

text \<open>
  Modelled from the spec: the events and the data of the directive being assembled (the
  sources name the types \<open>BoltArtifactData\<close> and \<open>BoltActionData\<close> and do not show
  them). The artifact and the action being assembled keep the source text of their
  opening tag, which is what is left to show of them when the stream ends before they
  close.
\<close>

datatype parser_event =
    ArtifactOpened string string
  | ActionReady string nat string "string option"
  | ActionClosed string nat string "string option" string
  | ArtifactClosed string

record BoltArtifactData =
  artId :: string
  artTitle :: string
  artSource :: string

record BoltActionData =
  actType :: string
  actFilePath :: "string option"
  actContent :: string
  actSource :: string

text \<open>
  Modelled from the spec: the state of one stream, with the fields section 3 of the spec
  lists (the sources' \<open>MessageState\<close> has the same but for the unresolved suffix): the
  cursor (how much of the text seen so far has been classified), the unresolved suffix (seen, not classified yet), the two flags, the
  artifact and the action being assembled, and the action counter of the artifact.
\<close>

record MessageState =
  position :: nat
  unresolved :: string
  insideArtifact :: bool
  insideAction :: bool
  currentArtifact :: "BoltArtifactData option"
  currentAction :: "BoltActionData option"
  actionCounter :: nat

definition newMessageState :: MessageState where
  "newMessageState =
     \<lparr>position = 0, unresolved = [], insideArtifact = False, insideAction = False,
      currentArtifact = None, currentAction = None, actionCounter = 0\<rparr>"

definition advance :: "nat \<Rightarrow> MessageState \<Rightarrow> MessageState" where
  "advance n st = st\<lparr>position := position st + n\<rparr>"

subsection \<open>One step of the scan\<close>

text \<open>
  Modelled from the spec: the steps of the scan (the body of \<open>parse\<close> is not in the
  sources). A step looks at the text from the cursor on. It answers \<open>None\<close> when the text is
  used up or cannot be classified without more of it, and otherwise how many characters
  it consumed, the sanitized text and the events they gave, and the state after them.
\<close>

type_synonym scan_step = "(nat \<times> string \<times> parser_event list \<times> MessageState) option"

text \<open>
  Modelled from the spec: the step outside an artifact. Text passes through; only
  \<open><artifact\<close> is special.
\<close>

definition outsideStep :: "MessageState \<Rightarrow> string \<Rightarrow> scan_step" where
  "outsideStep st rest =
     (if hd rest \<noteq> CHR ''<'' then Some (1, [hd rest], [], advance 1 st)
      else case matchOpen artifactOpen rest of
             Partial \<Rightarrow> None
           | NoMatch \<Rightarrow> Some (1, ''<'', [], advance 1 st)
           | Match \<Rightarrow>
               (case tagEnd rest of
                  None \<Rightarrow> None
                | Some k \<Rightarrow>
                    let tag = take (Suc k) rest;
                        art = \<lparr>artId = attributeOr ''id'' tag,
                               artTitle = attributeOr ''title'' tag, artSource = tag\<rparr>
                    in Some (Suc k, [], [ArtifactOpened (artId art) (artTitle art)],
                             (advance (Suc k) st)\<lparr>insideArtifact := True,
                                currentArtifact := Some art, actionCounter := 0\<rparr>)))"

text \<open>
  Modelled from the spec: the step inside an artifact and outside an action. The text is payload of the artifact and is
  not shown. The closing tag of the artifact and the opening tag of an action are
  special; the opening tag of a second artifact is malformed and is shown as it is.
\<close>

definition artifactStep :: "MessageState \<Rightarrow> BoltArtifactData \<Rightarrow> string \<Rightarrow> scan_step" where
  "artifactStep st art rest =
     (if hd rest \<noteq> CHR ''<'' then Some (1, [], [], advance 1 st)
      else case matchClose artifactClose rest of
             Match \<Rightarrow>
               Some (length artifactClose, [], [ArtifactClosed (artId art)],
                     (advance (length artifactClose) st)\<lparr>insideArtifact := False,
                        currentArtifact := None\<rparr>)
           | Partial \<Rightarrow> None
           | NoMatch \<Rightarrow>
               (case matchOpen actionOpen rest of
                  Partial \<Rightarrow> None
                | Match \<Rightarrow>
                    (case tagEnd rest of
                       None \<Rightarrow> None
                     | Some k \<Rightarrow>
                         let tag = take (Suc k) rest;
                             act = \<lparr>actType = attributeOr ''type'' tag,
                                    actFilePath = extractAttribute ''filePath'' tag,
                                    actContent = [], actSource = tag\<rparr>
                         in Some (Suc k, [],
                                  [ActionReady (artId art) (actionCounter st)
                                     (actType act) (actFilePath act)],
                                  (advance (Suc k) st)\<lparr>insideAction := True,
                                     currentAction := Some act\<rparr>))
                | NoMatch \<Rightarrow>
                    (case matchOpen artifactOpen rest of
                       Partial \<Rightarrow> None
                     | Match \<Rightarrow>
                         (case tagEnd rest of
                            None \<Rightarrow> None
                          | Some k \<Rightarrow> Some (Suc k, take (Suc k) rest, [], advance (Suc k) st))
                     | NoMatch \<Rightarrow> Some (1, [], [], advance 1 st))))"

text \<open>
  Modelled from the spec: the step inside an action. Everything up to the closing tag is content. The closing tag
  freezes the content, hands it out with the closing event and moves the counter on.
\<close>

definition actionStep ::
    "MessageState \<Rightarrow> BoltArtifactData \<Rightarrow> BoltActionData \<Rightarrow> string \<Rightarrow> scan_step" where
  "actionStep st art act rest =
     (case matchClose actionClose rest of
        Match \<Rightarrow>
          Some (length actionClose, [],
                [ActionClosed (artId art) (actionCounter st) (actType act)
                   (actFilePath act) (actContent act)],
                (advance (length actionClose) st)\<lparr>insideAction := False,
                   currentAction := None, actionCounter := Suc (actionCounter st)\<rparr>)
      | Partial \<Rightarrow> None
      | NoMatch \<Rightarrow>
          Some (1, [], [],
                (advance 1 st)\<lparr>currentAction :=
                   Some (act\<lparr>actContent := actContent act @ [hd rest]\<rparr>)\<rparr>))"

definition scanStep :: "MessageState \<Rightarrow> string \<Rightarrow> scan_step" where
  "scanStep st rest =
     (if rest = [] then None
      else if \<not> insideArtifact st then outsideStep st rest
      else case currentArtifact st of
             None \<Rightarrow> None
           | Some art \<Rightarrow>
               if \<not> insideAction st then artifactStep st art rest
               else case currentAction st of
                      None \<Rightarrow> None
                    | Some act \<Rightarrow> actionStep st art act rest)"

subsection \<open>The scan\<close>

text \<open>A step consumes at least one character and no more than there are.\<close>

lemma takeWhile_stops: "x \<in> set xs \<Longrightarrow> \<not> P x \<Longrightarrow> length (takeWhile P xs) < length xs"
  by (induction xs) auto

lemma tagEnd_less: "tagEnd rest = Some k \<Longrightarrow> k < length rest"
  by (auto simp: tagEnd_def takeWhile_stops split: if_splits)

lemma matchClose_Match_length: "matchClose tag rest = Match \<Longrightarrow> length tag \<le> length rest"
  by (auto simp: matchClose_def prefix_length_le split: if_splits)

lemma scanStep_consumes:
  assumes "scanStep st rest = Some (n, out, evs, st')"
  shows "0 < n \<and> n \<le> length rest"
proof -
  from assms have ne: "rest \<noteq> []" by (auto simp: scanStep_def split: if_splits)
  then have one: "Suc 0 \<le> length rest" by (cases rest) auto
  from assms show ?thesis
    using one tagEnd_less[of rest] matchClose_Match_length[of _ rest]
    by (auto simp: scanStep_def outsideStep_def artifactStep_def actionStep_def Let_def
          artifactClose_def actionClose_def
        split: if_splits option.splits tag_match.splits
        dest!: tagEnd_less matchClose_Match_length)
qed

text \<open>
  Modelled from the spec: the loop of \<open>parse\<close>. The scan takes steps until one answers \<open>None\<close>; what is left of the text then is
  the unresolved suffix of the state.
\<close>

function scan :: "MessageState \<Rightarrow> string \<Rightarrow> string \<times> parser_event list \<times> MessageState" where
  "scan st rest =
     (case scanStep st rest of
        None \<Rightarrow> ([], [], st\<lparr>unresolved := rest\<rparr>)
      | Some (n, out, evs, st') \<Rightarrow>
          (case scan st' (drop n rest) of
             (out', evs', st'') \<Rightarrow> (out @ out', evs @ evs', st'')))"
  by pat_completeness auto
termination
proof (relation "measure (\<lambda>(st, rest). length rest)")
  show "wf (measure (\<lambda>(st, rest). length rest))" by simp
next
  fix st :: MessageState and rest :: string and x2 n y out ya evs st'
  assume "scanStep st rest = Some x2" "(n, y) = x2" "(out, ya) = y" "(evs, st') = ya"
  then have "scanStep st rest = Some (n, out, evs, st')" by simp
  from scanStep_consumes[OF this] have "0 < n" "n \<le> length rest" by simp_all
  then show "((st', drop n rest), (st, rest)) \<in> measure (\<lambda>(st, rest). length rest)"
    by simp
qed

declare scan.simps [simp del]

subsection \<open>The parser\<close>

text \<open>
  Modelled from the spec: \<open>consume\<close> and \<open>finalize\<close> (the sources' \<open>parse\<close>, by its
  signature alone). \<open>feed\<close> is \<open>consume\<close> on the state of one stream: the chunk goes behind the
  unresolved suffix and the scan runs on the two. The parser holds the states by stream
  id, makes one at the first chunk of a stream, and discards it when the stream is
  finalized; what \<open>finalize\<close> returns is the source text of what the stream left
  unterminated: the opening tag of the open artifact, the opening tag and the content
  so far of the open action, and the unresolved suffix.
\<close>

definition feed :: "MessageState \<Rightarrow> string \<Rightarrow> string \<times> parser_event list \<times> MessageState" where
  "feed st chunk = scan st (unresolved st @ chunk)"

type_synonym parser = "string \<rightharpoonup> MessageState"

definition stateOf :: "parser \<Rightarrow> string \<Rightarrow> MessageState" where
  "stateOf p streamId = (case p streamId of None \<Rightarrow> newMessageState | Some st \<Rightarrow> st)"

definition consume :: "parser \<Rightarrow> string \<Rightarrow> string \<Rightarrow> string \<times> parser_event list \<times> parser" where
  "consume p streamId chunk =
     (case feed (stateOf p streamId) chunk of
        (out, evs, st') \<Rightarrow> (out, evs, p(streamId \<mapsto> st')))"

definition unterminated :: "MessageState \<Rightarrow> string" where
  "unterminated st =
     (if insideArtifact st
      then (case currentArtifact st of None \<Rightarrow> [] | Some art \<Rightarrow> artSource art)
           @ (if insideAction st
              then (case currentAction st of
                      None \<Rightarrow> []
                    | Some act \<Rightarrow> actSource act @ actContent act)
              else [])
      else [])
     @ unresolved st"

definition finalize :: "parser \<Rightarrow> string \<Rightarrow> string \<times> parser" where
  "finalize p streamId = (unterminated (stateOf p streamId), p(streamId := None))"

text \<open>
  Chunks fed one after the other to one stream: the sanitized text of the calls put
  together, the events in the order they were emitted, and the parser after the last.
\<close>

fun consumeAll :: "parser \<Rightarrow> string \<Rightarrow> string list \<Rightarrow> string \<times> parser_event list \<times> parser" where
  "consumeAll p streamId [] = ([], [], p)"
| "consumeAll p streamId (chunk # chunks) =
     (case consume p streamId chunk of
        (out, evs, p') \<Rightarrow>
          (case consumeAll p' streamId chunks of
             (out', evs', p'') \<Rightarrow> (out @ out', evs @ evs', p'')))"

text \<open>The text of the spec's concrete case, and its split at every character.\<close>

definition demoText :: string where
  \<open>demoText = ''Hello <artifact id="a1" title="Demo"><action type="file" filePath="x.txt">hi</action></artifact> bye''\<close>

definition everyCharacter :: "string \<Rightarrow> string list" where
  "everyCharacter t = map (\<lambda>c. [c]) t"



subsection \<open>What the state remembers of the text\<close>

text \<open>
  \<open>tracks seen st\<close>: with \<open>seen\<close> the text classified so far, the opening tag kept for
  the open artifact occurs in it, and the opening tag and the content kept for the open
  action are its end; an action is open only inside an artifact.
\<close>

definition tracks :: "string \<Rightarrow> MessageState \<Rightarrow> bool" where
  "tracks seen st \<longleftrightarrow>
     (insideArtifact st \<longrightarrow>
        (\<exists>art. currentArtifact st = Some art \<and> sublist (artSource art) seen
               \<and> prefix artifactOpen (artSource art)))
     \<and> (insideAction st \<longrightarrow>
        insideArtifact st
        \<and> (\<exists>act. currentAction st = Some act
               \<and> suffix (actSource act @ actContent act) seen
               \<and> prefix actionOpen (actSource act)
               \<and> suffix ''>'' (actSource act)))"



section \<open>The workbench store and the parser's callbacks\<close>


record ArtifactState =
  asId :: string
  asTitle :: string
  closed :: bool
  runner :: ActionRunner

record WorkbenchStore =
  container :: webcontainer
  artifactIdList :: "string list"
  artifacts :: "string \<rightharpoonup> ArtifactState"
  showWorkbench :: bool

datatype store_error = Unreachable string



type_synonym store_result = "WorkbenchStore \<times> store_error option"

definition withRunner ::
    "string \<Rightarrow> (ActionRunner \<Rightarrow> ActionRunner) \<Rightarrow> WorkbenchStore \<Rightarrow> store_result" where
  "withRunner mid f s =
     (case artifacts s mid of
        None \<Rightarrow> (s, Some (Unreachable ''Artifact not found''))
      | Some artifact \<Rightarrow>
          (s\<lparr>artifacts := (artifacts s)(mid \<mapsto> artifact\<lparr>runner := f (runner artifact)\<rparr>)\<rparr>,
           None))"

text \<open>The store's \<open>addAction\<close> and \<open>runAction\<close>: find the artifact of the message, call its runner.\<close>

definition workbenchAddAction :: "ActionCallbackData \<Rightarrow> WorkbenchStore \<Rightarrow> store_result" where
  "workbenchAddAction d s = withRunner (messageId d) (addAction d) s"

definition workbenchRunAction :: "ActionCallbackData \<Rightarrow> WorkbenchStore \<Rightarrow> store_result" where
  "workbenchRunAction d s = withRunner (messageId d) (runAction d) s"


definition onActionOpen :: "ActionCallbackData \<Rightarrow> WorkbenchStore \<Rightarrow> store_result" where
  "onActionOpen d s =
     (if cbType d \<noteq> ''shell'' then workbenchAddAction d s else (s, None))"

definition onActionClose :: "ActionCallbackData \<Rightarrow> WorkbenchStore \<Rightarrow> store_result" where
  "onActionClose d s =
     (case (if cbType d = ''shell'' then workbenchAddAction d s else (s, None)) of
        (s', Some e) \<Rightarrow> (s', Some e)
      | (s', None) \<Rightarrow> workbenchRunAction d s')"








subsection \<open>From the text of a message to the container\<close>




definition contentOf :: "WorkbenchStore \<Rightarrow> string \<Rightarrow> string \<Rightarrow> string option" where
  "contentOf s mid x =
     (case artifacts s mid of
        None \<Rightarrow> None
      | Some artifact \<Rightarrow> map_option content (actions (runner artifact) x))"

section \<open>Properties of the prompt enhancer\<close>

lemma readLoop_flags:
  "readLoop chunks e acc s = (s', r) \<Longrightarrow>
     enhancingPrompt s' = enhancingPrompt s \<and> promptEnhanced s' = promptEnhanced s"
  by (induction chunks e acc s rule: readLoop.induct) (auto simp: setInput_def Let_def)

lemma enhancePrompt_resets_enhancing:
  "enhancingPrompt (enhancePrompt input outcome s) = False"
  by (simp add: enhancePrompt_def setEnhancingPrompt_def Let_def split: prod.splits)

lemma enhancePrompt_restores_when_thrown:
  assumes "snd (tryBlock input outcome (setPromptEnhanced False (setEnhancingPrompt True s))) = False"
  shows "last (setInputCalls (enhancePrompt input outcome s)) = input
         \<and> promptEnhanced (enhancePrompt input outcome s) = False"
proof (cases "tryBlock input outcome (setPromptEnhanced False (setEnhancingPrompt True s))")
  case (Pair s2 completed)
  with assms have "completed = False" by simp
  with Pair show ?thesis
    by (simp add: enhancePrompt_def setEnhancingPrompt_def setPromptEnhanced_def setInput_def)
qed

lemma tryBlock_throws:
  "tryBlock input FetchRejects s = (s, False)"
  "\<not> ok r \<Longrightarrow> tryBlock input (FetchResolves r) s = (s, False)"
  "ok r \<Longrightarrow> body r = None \<Longrightarrow> tryBlock input (FetchResolves r) s = (s, False)"
  by (simp_all add: tryBlock_def)

text \<open>
  C9. The prompt enhancer on a failed enhancement. When the request is answered with
  status 200 and a body whose stream ends at once (the enhancement is empty after the
  clean-up and the trim), the last value passed to \<open>setInput\<close> is the original input and
  \<open>enhancingPrompt\<close> is reset, but \<open>promptEnhanced\<close> is left \<open>True\<close>: the branch that
  restores the original input falls through to the unconditional
  \<open>setPromptEnhanced(true)\<close>, where the \<open>catch\<close> branch that restores the input sets it
  to \<open>false\<close>. The same happens for a stream of white space only.
\<close>

theorem enhancePrompt_empty_enhancement:
  "setInputCalls (enhancePrompt ''make a todo app''
      (FetchResolves \<lparr>ok = True, httpStatus = 200, body = Some ([], StreamDone)\<rparr>) idle)
     = ['''', ''make a todo app'']
   \<and> promptEnhanced (enhancePrompt ''make a todo app''
      (FetchResolves \<lparr>ok = True, httpStatus = 200, body = Some ([], StreamDone)\<rparr>) idle) = True
   \<and> enhancingPrompt (enhancePrompt ''make a todo app''
      (FetchResolves \<lparr>ok = True, httpStatus = 200, body = Some ([], StreamDone)\<rparr>) idle) = False
   \<and> promptEnhanced (enhancePrompt ''make a todo app''
      (FetchResolves \<lparr>ok = True, httpStatus = 200, body = Some (['' '', ''[object Object]''], StreamDone)\<rparr>) idle) = True"
  by (simp add: enhancePrompt_def tryBlock_def idle_def setInput_def setPromptEnhanced_def
      setEnhancingPrompt_def trim_def isWhiteSpace_def objectArtifact_def Let_def)

section \<open>Properties of a single action's run\<close>

lemma runFileAction_trace:
  assumes "filePath a = Some p"
  shows "runFileAction wc a =
      (if dirname p = ''.''
       then ([WriteFile p (content a)],
             if writeFileFails wc p (content a) then Inl (FsError p) else Inr ())
       else if mkdirFails wc (dirname p)
       then ([Mkdir (dirname p) True], Inl (FsError (dirname p)))
       else ([Mkdir (dirname p) True, WriteFile p (content a)],
             if writeFileFails wc p (content a) then Inl (FsError p) else Inr ()))"
  using assms by (simp add: runFileAction_def await_def Let_def)

lemma runFileAction_no_path: "filePath a = None \<Longrightarrow> runFileAction wc a = ([], Inl TypeError)"
  by (simp add: runFileAction_def)

text \<open>
  C6, as the claim states it, fails: a file action whose path has no directory part
  (\<open>x.txt\<close>, whose \<open>dirname\<close> is \<open>.\<close>) is written without any call of \<open>mkdir\<close>; the
  guard \<open>folder !== '.'\<close> skips it.
\<close>

theorem runFileAction_top_level_file_no_mkdir:
  "fst (runFileAction okContainer
          \<lparr>status = running, executed = True, abortSignal = False, actionType = ''file'',
           content = ''hi'', filePath = Some ''x.txt''\<rparr>) = [WriteFile ''x.txt'' ''hi'']"
  by (simp add: runFileAction_def await_def okContainer_def dirname_def)

text \<open>
  C6, amended. For a file action with path \<open>p\<close> and content \<open>c\<close>: when
  \<open>dirname p\<close> is not \<open>.\<close>, the run first calls \<open>mkdir(dirname p, recursive)\<close> and,
  if that call does not reject, then \<open>writeFile(p, c)\<close>; when \<open>dirname p\<close> is \<open>.\<close>,
  it calls \<open>writeFile(p, c)\<close> alone. These are all the calls it makes, the run throws
  exactly when the last of them rejects, and no run of a file action writes before it
  creates a directory.
\<close>

theorem runFileAction_mkdir_then_write:
  assumes "filePath a = Some p"
  shows "fst (runFileAction wc a) =
           (if dirname p = ''.'' then [WriteFile p (content a)]
            else if mkdirFails wc (dirname p) then [Mkdir (dirname p) True]
            else [Mkdir (dirname p) True, WriteFile p (content a)])
         \<and> snd (runFileAction wc a) =
           (if dirname p \<noteq> ''.'' \<and> mkdirFails wc (dirname p) then Inl (FsError (dirname p))
            else if writeFileFails wc p (content a) then Inl (FsError p)
            else Inr ())
         \<and> \<not> writeBeforeMkdir (fst (runFileAction wc a))"
  using assms by (simp add: runFileAction_trace)

theorem runFileAction_mkdir_then_write_witness:
  "fst (runFileAction okContainer
          \<lparr>status = running, executed = True, abortSignal = False, actionType = ''file'',
           content = ''export {}'', filePath = Some ''src/App.tsx''\<rparr>)
     = [Mkdir ''src'' True, WriteFile ''src/App.tsx'' ''export {}'']
   \<and> snd (runFileAction okContainer
          \<lparr>status = running, executed = True, abortSignal = False, actionType = ''file'',
           content = ''export {}'', filePath = Some ''src/App.tsx''\<rparr>) = Inr ()"
proof -
  have d: "dirname ''src/App.tsx'' = ''src''"
    by (simp add: dirname_def eval_nat_numeral)
  show ?thesis
    using runFileAction_mkdir_then_write
      [of "\<lparr>status = running, executed = True, abortSignal = False, actionType = ''file'',
            content = ''export {}'', filePath = Some ''src/App.tsx''\<rparr>" "''src/App.tsx''" okContainer]
    by (simp add: d okContainer_def)
qed

section \<open>Properties of the runner's chain\<close>

subsection \<open>The two halves of an execution\<close>


lemma runFileAction_signal: "runFileAction wc (a\<lparr>abortSignal := s\<rparr>) = runFileAction wc a"
  by (simp add: runFileAction_def split: option.splits)






subsection \<open>The shape is kept\<close>




lemma inflight_simps [simp]:
  "executing r = None \<Longrightarrow> inflight r = []"
  "executing r = Some (x, w) \<Longrightarrow> inflight r = [x]"
  by (simp_all add: inflight_def)













subsection \<open>Orderly runs\<close>

lemma dom_setStatus: "dom (actions (setStatus aid s r)) = dom (actions r)"
  by (auto simp: setStatus_def split: option.splits)








subsection \<open>One execution at a time, in the order of the chain\<close>




section \<open>Failures and the chain\<close>

subsection \<open>What an event does to the chain\<close>



















subsection \<open>A failure does not halt the chain\<close>





section \<open>The run of a shell action\<close>




section \<open>The statuses of an action\<close>

subsection \<open>The abort signal\<close>







subsection \<open>What an event does to a status\<close>






section \<open>Properties of formatFileSize\<close>





section \<open>Properties of the directive parser\<close>

lemma prefix_iff_take: "prefix xs ys \<longleftrightarrow> xs = take (length xs) ys"
  by (metis prefix_def append_eq_conv_conj take_is_prefix)

lemma prefix_append_longer:
  "length n \<le> length r \<Longrightarrow> prefix n (r @ x) \<longleftrightarrow> prefix n r"
  by (simp add: prefix_iff_take)

lemma prefix_append_shorter:
  assumes "prefix n (r @ x)" "length r \<le> length n"
  shows "prefix r n"
  using assms by (metis prefix_append prefix_order.dual_order.refl prefix_length_le
      prefix_order.antisym_conv prefixI le_antisym prefix_length_prefix append_prefixD)

lemma matchOpen_Match_stable:
  "matchOpen name rest = Match \<Longrightarrow> matchOpen name (rest @ x) = Match"
  by (auto simp: matchOpen_def nth_append prefix_append_longer split: if_splits)

lemma matchOpen_NoMatch_stable:
  assumes "matchOpen name rest = NoMatch"
  shows "matchOpen name (rest @ x) = NoMatch"
proof (cases "length rest \<le> length name")
  case True
  with assms have np: "\<not> prefix rest name"
    by (auto simp: matchOpen_def split: if_splits)
  then have "\<not> prefix (rest @ x) name" "\<not> prefix name (rest @ x)"
    using True prefix_append_shorter append_prefixD by blast+
  then show ?thesis by (simp add: matchOpen_def)
next
  case False
  with assms show ?thesis
    by (auto simp: matchOpen_def nth_append prefix_append_longer split: if_splits)
qed

lemma matchClose_Match_stable:
  "matchClose tag rest = Match \<Longrightarrow> matchClose tag (rest @ x) = Match"
  by (auto simp: matchClose_def split: if_splits)

lemma matchClose_NoMatch_stable:
  assumes "matchClose tag rest = NoMatch"
  shows "matchClose tag (rest @ x) = NoMatch"
proof -
  from assms have a: "\<not> prefix tag rest" "\<not> prefix rest tag"
    by (auto simp: matchClose_def split: if_splits)
  have "\<not> prefix tag (rest @ x)"
  proof
    assume p: "prefix tag (rest @ x)"
    show False
    proof (cases "length tag \<le> length rest")
      case True
      with p a(1) show False by (simp add: prefix_append_longer)
    next
      case False
      then have "length rest \<le> length tag" by simp
      with p a(2) show False using prefix_append_shorter by blast
    qed
  qed
  moreover have "\<not> prefix (rest @ x) tag"
    using a(2) append_prefixD by blast
  ultimately show ?thesis by (simp add: matchClose_def)
qed

lemma tagEnd_stable: "tagEnd rest = Some k \<Longrightarrow> tagEnd (rest @ x) = Some k"
  by (auto simp: tagEnd_def split: if_splits)

lemma scanStep_stable:
  assumes "scanStep st rest = Some r"
  shows "scanStep st (rest @ x) = Some r"
proof -
  from assms have ne: "rest \<noteq> []" by (auto simp: scanStep_def split: if_splits)
  then have hd: "hd (rest @ x) = hd rest" by simp
  have tk: "\<And>k. tagEnd rest = Some k \<Longrightarrow> take (Suc k) (rest @ x) = take (Suc k) rest"
    using tagEnd_less by fastforce
  have te: "\<And>k. tagEnd rest = Some k \<Longrightarrow> tagEnd (rest @ x) = Some k"
    by (rule tagEnd_stable)
  have mo: "\<And>name. matchOpen name rest = Match \<Longrightarrow> matchOpen name (rest @ x) = Match"
    "\<And>name. matchOpen name rest = NoMatch \<Longrightarrow> matchOpen name (rest @ x) = NoMatch"
    by (rule matchOpen_Match_stable, assumption) (rule matchOpen_NoMatch_stable, assumption)
  have mc: "\<And>tag. matchClose tag rest = Match \<Longrightarrow> matchClose tag (rest @ x) = Match"
    "\<And>tag. matchClose tag rest = NoMatch \<Longrightarrow> matchClose tag (rest @ x) = NoMatch"
    by (rule matchClose_Match_stable, assumption) (rule matchClose_NoMatch_stable, assumption)
  show ?thesis
  proof (cases "insideArtifact st")
    case False
    with assms ne have o: "outsideStep st rest = Some r" by (simp add: scanStep_def)
    have "outsideStep st (rest @ x) = Some r"
      using o hd tk te mo[of artifactOpen]
      by (auto simp: outsideStep_def Let_def split: if_splits tag_match.splits option.splits)
    with False ne show ?thesis by (simp add: scanStep_def)
  next
    case True
    with assms obtain art where art: "currentArtifact st = Some art"
      by (auto simp: scanStep_def split: if_splits option.splits)
    show ?thesis
    proof (cases "insideAction st")
      case False
      with assms ne True art have o: "artifactStep st art rest = Some r"
        by (simp add: scanStep_def)
      have "artifactStep st art (rest @ x) = Some r"
        using o hd tk te mo[of artifactOpen] mo[of actionOpen] mc[of artifactClose]
        by (auto simp: artifactStep_def Let_def split: if_splits tag_match.splits option.splits)
      with False True art ne show ?thesis by (simp add: scanStep_def)
    next
      case ia: True
      with assms True art obtain act where act: "currentAction st = Some act"
        by (auto simp: scanStep_def split: if_splits option.splits)
      with assms ne True art ia have o: "actionStep st art act rest = Some r"
        by (simp add: scanStep_def)
      have "actionStep st art act (rest @ x) = Some r"
        using o hd mc[of actionClose]
        by (auto simp: actionStep_def Let_def split: if_splits tag_match.splits option.splits)
      with ia True art act ne show ?thesis by (simp add: scanStep_def)
    qed
  qed
qed
lemma advance_unresolved: "advance n (st\<lparr>unresolved := u\<rparr>) = (advance n st)\<lparr>unresolved := u\<rparr>"
  by (simp add: advance_def)

lemma outsideStep_unresolved:
  "outsideStep (st\<lparr>unresolved := u\<rparr>) rest =
     map_option (\<lambda>(n, out, evs, st'). (n, out, evs, st'\<lparr>unresolved := u\<rparr>)) (outsideStep st rest)"
  by (simp add: outsideStep_def advance_unresolved Let_def split: option.splits tag_match.splits)

lemma artifactStep_unresolved:
  "artifactStep (st\<lparr>unresolved := u\<rparr>) art rest =
     map_option (\<lambda>(n, out, evs, st'). (n, out, evs, st'\<lparr>unresolved := u\<rparr>)) (artifactStep st art rest)"
  by (simp add: artifactStep_def advance_unresolved Let_def split: option.splits tag_match.splits)

lemma actionStep_unresolved:
  "actionStep (st\<lparr>unresolved := u\<rparr>) art act rest =
     map_option (\<lambda>(n, out, evs, st'). (n, out, evs, st'\<lparr>unresolved := u\<rparr>)) (actionStep st art act rest)"
  by (simp add: actionStep_def advance_unresolved Let_def split: option.splits tag_match.splits)

lemma scanStep_unresolved:
  "scanStep (st\<lparr>unresolved := u\<rparr>) rest =
     map_option (\<lambda>(n, out, evs, st'). (n, out, evs, st'\<lparr>unresolved := u\<rparr>)) (scanStep st rest)"
  by (simp add: scanStep_def outsideStep_unresolved artifactStep_unresolved actionStep_unresolved
      split: option.splits)

lemma scan_unresolved: "scan (st\<lparr>unresolved := u\<rparr>) rest = scan st rest"
proof (induction st rest arbitrary: u rule: scan.induct)
  case (1 st rest)
  show ?case
  proof (cases "scanStep st rest")
    case None
    then show ?thesis
      by (subst scan.simps, subst (2) scan.simps) (simp add: scanStep_unresolved)
  next
    case (Some r)
    obtain n out evs st' where r: "r = (n, out, evs, st')" by (cases r) auto
    from "1.IH"[OF Some[unfolded r] refl refl refl, of u]
    have "scan (st'\<lparr>unresolved := u\<rparr>) (drop n rest) = scan st' (drop n rest)" .
    with Some r show ?thesis
      by (subst scan.simps, subst (2) scan.simps) (simp add: scanStep_unresolved)
  qed
qed

lemma scan_append:
  "scan st (t @ x) =
     (case scan st t of
        (o1, e1, s1) \<Rightarrow>
          (case scan s1 (unresolved s1 @ x) of
             (o2, e2, s2) \<Rightarrow> (o1 @ o2, e1 @ e2, s2)))"
proof (induction st t rule: scan.induct)
  case (1 st t)
  show ?case
  proof (cases "scanStep st t")
    case None
    then have "scan st t = ([], [], st\<lparr>unresolved := t\<rparr>)"
      by (subst scan.simps) simp
    then show ?thesis by (simp add: scan_unresolved)
  next
    case (Some r)
    obtain n out evs st' where r: "r = (n, out, evs, st')" by (cases r) auto
    from scanStep_consumes[OF Some[unfolded r]] have n: "n \<le> length t" by simp
    have step: "scanStep st (t @ x) = Some (n, out, evs, st')"
      using scanStep_stable[OF Some] r by simp
    have ih: "scan st' (drop n t @ x) =
      (case scan st' (drop n t) of
        (o1, e1, s1) \<Rightarrow>
          (case scan s1 (unresolved s1 @ x) of
             (o2, e2, s2) \<Rightarrow> (o1 @ o2, e1 @ e2, s2)))"
      using "1.IH"[OF Some[unfolded r] refl refl refl] .
    have l: "scan st (t @ x) =
        (case scan st' (drop n t @ x) of (out', evs', st'') \<Rightarrow> (out @ out', evs @ evs', st''))"
      using step n by (subst scan.simps) simp
    have r': "scan st t =
        (case scan st' (drop n t) of (out', evs', st'') \<Rightarrow> (out @ out', evs @ evs', st''))"
      using Some r by (subst scan.simps) simp
    show ?thesis
      unfolding l r' ih by (simp split: prod.splits)
  qed
qed

lemma scan_settled:
  "scan st t = (out, evs, s') \<Longrightarrow> scanStep s' (unresolved s') = None"
proof (induction st t arbitrary: out evs s' rule: scan.induct)
  case (1 st t)
  show ?case
  proof (cases "scanStep st t")
    case None
    with "1.prems" have "s' = st\<lparr>unresolved := t\<rparr>"
      by (subst (asm) scan.simps) simp
    with None show ?thesis by (simp add: scanStep_unresolved)
  next
    case (Some r)
    obtain n o1 e1 st' where r: "r = (n, o1, e1, st')" by (cases r) auto
    obtain o2 e2 s2 where s: "scan st' (drop n t) = (o2, e2, s2)"
      by (cases "scan st' (drop n t)") auto
    with "1.prems" Some r have "s' = s2"
      by (subst (asm) scan.simps) simp
    with "1.IH"[OF Some[unfolded r] refl refl refl s] show ?thesis by simp
  qed
qed

lemma scan_of_settled:
  assumes "scanStep st (unresolved st) = None"
  shows "scan st (unresolved st) = ([], [], st)"
  using assms by (subst scan.simps) simp

lemma feed_append:
  "feed st (a @ b) =
     (case feed st a of
        (o1, e1, s1) \<Rightarrow>
          (case feed s1 b of (o2, e2, s2) \<Rightarrow> (o1 @ o2, e1 @ e2, s2)))"
  using scan_append[of st "unresolved st @ a" b] by (simp add: feed_def)

lemma feed_settled: "feed st chunk = (out, evs, s') \<Longrightarrow> scanStep s' (unresolved s') = None"
  unfolding feed_def by (rule scan_settled)

lemma feed_nothing:
  "scanStep st (unresolved st) = None \<Longrightarrow> feed st [] = ([], [], st)"
  by (simp add: feed_def scan_of_settled)

lemma settled_new: "scanStep newMessageState (unresolved newMessageState) = None"
  by (simp add: scanStep_def newMessageState_def)

lemma stateOf_update: "stateOf (p(streamId \<mapsto> st)) streamId = st"
  by (simp add: stateOf_def)

lemma consumeAll_is_feed:
  assumes "scanStep (stateOf p streamId) (unresolved (stateOf p streamId)) = None"
    and "consumeAll p streamId chunks = (out, evs, p')"
  shows "feed (stateOf p streamId) (concat chunks) = (out, evs, stateOf p' streamId)"
  using assms
proof (induction chunks arbitrary: p out evs p')
  case Nil
  then show ?case by (simp add: feed_nothing)
next
  case (Cons c cs)
  obtain o1 e1 s1 where f1: "feed (stateOf p streamId) c = (o1, e1, s1)"
    by (cases "feed (stateOf p streamId) c") auto
  define p1 where "p1 = p(streamId \<mapsto> s1)"
  have c1: "consume p streamId c = (o1, e1, p1)"
    by (simp add: consume_def f1 p1_def)
  obtain o2 e2 p2 where r: "consumeAll p1 streamId cs = (o2, e2, p2)"
    by (cases "consumeAll p1 streamId cs") auto
  have s1: "stateOf p1 streamId = s1" by (simp add: p1_def stateOf_update)
  have "scanStep (stateOf p1 streamId) (unresolved (stateOf p1 streamId)) = None"
    using feed_settled[OF f1] s1 by simp
  from Cons.IH[OF this r] s1 have f2: "feed s1 (concat cs) = (o2, e2, stateOf p2 streamId)"
    by simp
  from Cons.prems(2) c1 r have "out = o1 @ o2" "evs = e1 @ e2" "p' = p2" by simp_all
  then show ?case by (simp add: feed_append f1 f2)
qed

lemma concat_everyCharacter: "concat (everyCharacter t) = t"
  by (induction t) (simp_all add: everyCharacter_def)

text \<open>
  C1. Chunk-invariance. For a stream the parser has not seen yet and any list of
  chunks, feeding the chunks one after the other gives the same sanitized text (the
  results of the calls put together), the same events in the same order, and leaves
  the same text to surface at \<open>finalize\<close>, as feeding their concatenation as one
  chunk.
\<close>

theorem chunk_invariance:
  assumes "p streamId = None"
  shows "fst (consumeAll p streamId chunks) = fst (consumeAll p streamId [concat chunks])
         \<and> fst (snd (consumeAll p streamId chunks))
             = fst (snd (consumeAll p streamId [concat chunks]))
         \<and> fst (finalize (snd (snd (consumeAll p streamId chunks))) streamId)
             = fst (finalize (snd (snd (consumeAll p streamId [concat chunks]))) streamId)"
proof -
  have st: "stateOf p streamId = newMessageState"
    using assms by (simp add: stateOf_def)
  then have settled: "scanStep (stateOf p streamId) (unresolved (stateOf p streamId)) = None"
    by (simp add: settled_new)
  obtain o1 e1 p1 where a: "consumeAll p streamId chunks = (o1, e1, p1)"
    by (cases "consumeAll p streamId chunks") auto
  obtain o2 e2 p2 where b: "consumeAll p streamId [concat chunks] = (o2, e2, p2)"
    by (cases "consumeAll p streamId [concat chunks]") auto
  from consumeAll_is_feed[OF settled a] consumeAll_is_feed[OF settled b]
  have "o1 = o2" "e1 = e2" "stateOf p1 streamId = stateOf p2 streamId" by simp_all
  with a b show ?thesis by (simp add: finalize_def)
qed

theorem chunk_invariance_witness:
  "fst (consumeAll Map.empty ''stream'' (everyCharacter demoText)) = ''Hello  bye''
   \<and> fst (snd (consumeAll Map.empty ''stream'' (everyCharacter demoText))) =
       [ArtifactOpened ''a1'' ''Demo'', ActionReady ''a1'' 0 ''file'' (Some ''x.txt''),
        ActionClosed ''a1'' 0 ''file'' (Some ''x.txt'') ''hi'', ArtifactClosed ''a1'']
   \<and> fst (consumeAll Map.empty ''stream'' [demoText]) = ''Hello  bye''
   \<and> length (everyCharacter demoText) = 100"
proof -
  have whole: "fst (consumeAll Map.empty ''stream'' [demoText]) = ''Hello  bye''"
    "fst (snd (consumeAll Map.empty ''stream'' [demoText])) =
       [ArtifactOpened ''a1'' ''Demo'', ActionReady ''a1'' 0 ''file'' (Some ''x.txt''),
        ActionClosed ''a1'' 0 ''file'' (Some ''x.txt'') ''hi'', ArtifactClosed ''a1'']"
    by code_simp+
  have n: "length (everyCharacter demoText) = 100"
    by (simp add: everyCharacter_def demoText_def)
  from chunk_invariance[of Map.empty "''stream''" "everyCharacter demoText"] whole n
  show ?thesis by (simp add: concat_everyCharacter)
qed




lemma tracks_artifact_later:
  assumes "tracks seen st" "insideArtifact st"
  shows "\<exists>art. currentArtifact st = Some art \<and> sublist (artSource art) (seen @ extra)
               \<and> prefix artifactOpen (artSource art)"
  using assms unfolding tracks_def by (auto simp: sublist_append)
















section \<open>The content an action runs with\<close>

lemma content_begin:
  "map_option content (actions (fst (executeAction_begin aid r)) y) = map_option content (actions r y)"
  by (auto simp: executeAction_begin_def setStatus_def runShellAction_def Let_def
      split: option.splits prod.splits)

lemma content_pump: "map_option content (actions (pump r) y) = map_option content (actions r y)"
proof -
  have "map_option content
          (actions (case executeAction_begin aid r0 of (r', w) \<Rightarrow> r'\<lparr>executing := Some (aid, w)\<rparr>) y)
          = map_option content (actions r0 y)" for aid r0
    using content_begin[of aid r0 y] by (cases "executeAction_begin aid r0") simp
  then show ?thesis
    by (simp add: pump_def split: option.splits list.splits)
qed

lemma content_runAction:
  "map_option content (actions (runAction d r) y) = map_option content (actions r y)"
  by (simp add: runAction_def content_pump)

text \<open>
  The runner never learns the content of the closing callback of an action that is not
  a shell action: the action is added at its opening callback, with the content that
  callback has, and \<open>runAction\<close>, called at the closing callback, passes on the id
  alone. A shell action is added at its closing callback, with the content of that
  callback.
\<close>

lemma opened_content_is_kept:
  assumes "artifacts s (messageId d) = Some artifact"
    and "actions (runner artifact) (actionId d) = None"
    and "cbType d \<noteq> ''shell''"
    and "messageId d' = messageId d" and "actionId d' = actionId d" and "cbType d' = cbType d"
  shows "contentOf (fst (onActionClose d' (fst (onActionOpen d s)))) (messageId d) (actionId d)
           = Some (cbContent d)"
  using assms
  by (simp add: contentOf_def onActionClose_def onActionOpen_def workbenchAddAction_def
      workbenchRunAction_def withRunner_def content_runAction addAction_def)

lemma shell_content_is_closing_content:
  assumes "artifacts s (messageId d) = Some artifact"
    and "actions (runner artifact) (actionId d) = None"
    and "cbType d = ''shell''"
    and "messageId d' = messageId d" and "actionId d' = actionId d" and "cbType d' = cbType d"
  shows "contentOf (fst (onActionClose d' (fst (onActionOpen d s)))) (messageId d) (actionId d)
           = Some (cbContent d')"
  using assms
  by (simp add: contentOf_def onActionClose_def onActionOpen_def workbenchAddAction_def
      workbenchRunAction_def withRunner_def content_runAction addAction_def)

end
